theory Spec2Isabelle
  imports Complex_Main
begin

section \<open>JavaScript values as the client code sees them\<close>

text \<open>
  The web client receives parsed JSON from the typed API client and inspects it with
  \<^verbatim>\<open>Array.isArray\<close>, \<^verbatim>\<open>typeof\<close>, property reads and truthiness tests. A value is
  \<^verbatim>\<open>undefined\<close>, \<^verbatim>\<open>null\<close>, a boolean, a number, a string, an array or a plain object.
  Numbers are the finite numbers JSON can carry (never \<^verbatim>\<open>NaN\<close>); strings are byte
  strings (UTF-8); object properties are kept as an association list, read with
  \<open>map_of\<close>.
\<close>

datatype jsval =
    Undefined
  | Null
  | Bool bool
  | Num rat
  | Str string
  | Arr "jsval list"
  | Obj "(string \<times> jsval) list"

text \<open>The truthiness test of \<^verbatim>\<open>if (v)\<close>, \<^verbatim>\<open>v && ...\<close> and \<^verbatim>\<open>!!v\<close>.\<close>

fun truthy :: "jsval \<Rightarrow> bool" where
  "truthy Undefined = False"
| "truthy Null = False"
| "truthy (Bool b) = b"
| "truthy (Num n) = (n \<noteq> 0)"
| "truthy (Str s) = (s \<noteq> [])"
| "truthy (Arr xs) = True"
| "truthy (Obj kvs) = True"

fun typeof :: "jsval \<Rightarrow> string" where
  "typeof Undefined = ''undefined''"
| "typeof Null = ''object''"
| "typeof (Bool b) = ''boolean''"
| "typeof (Num n) = ''number''"
| "typeof (Str s) = ''string''"
| "typeof (Arr xs) = ''object''"
| "typeof (Obj kvs) = ''object''"

text \<open>
  A property read \<^verbatim>\<open>obj.k\<close> on a record produced by \<open>asObject\<close>. An array parsed from
  JSON carries its indices and \<^verbatim>\<open>length\<close> only; the code reads none of those names from
  it, so every name it does read (\<^verbatim>\<open>items\<close>, \<^verbatim>\<open>status\<close>, ...) is \<^verbatim>\<open>undefined\<close>
  on an array.
\<close>

fun get_prop :: "jsval \<Rightarrow> string \<Rightarrow> jsval" where
  "get_prop (Obj kvs) k = (case map_of kvs k of Some v \<Rightarrow> v | None \<Rightarrow> Undefined)"
| "get_prop v k = Undefined"

subsection \<open>Strings\<close>

text \<open>
  \<^verbatim>\<open>String.prototype.toLowerCase\<close> on the bytes of a UTF-8 string. The letters A to Z
  are mapped to a to z, and the Kelvin sign U+212A (bytes E2 84 AA) to k: it is the only
  character outside ASCII whose lower case is an ASCII character. Every other byte is
  left as it is. JavaScript also lower-cases the other letters outside ASCII, but always
  to text that still holds a character outside ASCII, so a comparison of a lower-cased
  string with an ASCII word, the only use the code makes of it, comes out the same.
\<close>

definition lower_char :: "char \<Rightarrow> char" where
  "lower_char c =
     (let n = (of_char c :: nat) in if 65 \<le> n \<and> n \<le> 90 then char_of (n + 32) else c)"

definition kelvin_sign :: string where
  "kelvin_sign = [CHR 0xE2, CHR 0x84, CHR 0xAA]"

fun toLowerCase :: "string \<Rightarrow> string" where
  "toLowerCase (c1 # c2 # c3 # cs) =
     (if [c1, c2, c3] = kelvin_sign then CHR ''k'' # toLowerCase cs
      else lower_char c1 # toLowerCase (c2 # c3 # cs))"
| "toLowerCase (c # cs) = lower_char c # toLowerCase cs"
| "toLowerCase [] = []"

text \<open>
  \<^verbatim>\<open>s.split(sep)\<close> for a one-character separator: the pieces between the separators,
  never an empty array (\<^verbatim>\<open>"".split(".")\<close> is \<^verbatim>\<open>[""]\<close>).
\<close>

fun split :: "char \<Rightarrow> string \<Rightarrow> string list" where
  "split sep [] = [[]]"
| "split sep (c # cs) =
     (if c = sep then [] # split sep cs
      else (case split sep cs of
              [] \<Rightarrow> [[c]]
            | w # ws \<Rightarrow> (c # w) # ws))"

text \<open>\<^verbatim>\<open>xs.pop()\<close> as a value: the last element, \<^verbatim>\<open>undefined\<close> on an empty array.\<close>

definition pop :: "'a list \<Rightarrow> 'a option" where
  "pop xs = (if xs = [] then None else Some (last xs))"

section \<open>The uploads page\<close>

datatype UploadStatus = Idle | Uploading | Uploaded | Extracting | Complete | Error

record File =
  name :: string
  bytes :: "char list"

text \<open>
  What \<^verbatim>\<open>api.POST\<close> gives back: the promise either rejects with a thrown value or
  resolves to a response object with a \<^verbatim>\<open>data\<close> and an \<^verbatim>\<open>error\<close> field (a missing
  field reads as \<^verbatim>\<open>undefined\<close>).
\<close>

record response =
  data :: jsval
  error :: jsval

datatype outcome = Threw jsval | Returned response

text \<open>
  The collaborators of the page: the API client, \<^verbatim>\<open>JSON.stringify\<close> and the text
  \<^verbatim>\<open>err.message || String(err)\<close> of a caught value. \<^verbatim>\<open>JSON.stringify\<close> is applied
  to the \<^verbatim>\<open>error\<close> value of a response only, a parsed body, on which it does not throw.
\<close>

record env =
  api_POST :: "string \<Rightarrow> File \<Rightarrow> outcome"
  stringify :: "jsval \<Rightarrow> string"
  err_text :: "jsval \<Rightarrow> string"

text \<open>
  The effects of \<^verbatim>\<open>handleUpload\<close>, in program order: the four state setters of the
  component and the requests sent through \<^verbatim>\<open>api.POST\<close> (path and uploaded file).
\<close>

datatype effect =
    SetStatus UploadStatus
  | SetStatusMessage string
  | SetResultData jsval
  | SetErrorMessage string
  | POST string File

definition isPdf :: "File \<Rightarrow> bool" where
  "isPdf file =
     (case pop (split (CHR ''.'') (name file)) of
        None \<Rightarrow> False
      | Some fileExt \<Rightarrow> toLowerCase fileExt = ''pdf'')"

definition extractEndpoint :: "File \<Rightarrow> string" where
  "extractEndpoint file =
     (if isPdf file then ''/extract/unstructured'' else ''/extract/structured'')"

definition catch_block :: "env \<Rightarrow> jsval \<Rightarrow> effect list" where
  "catch_block e err =
     [SetStatus Error, SetErrorMessage (''Unexpected error: '' @ err_text e err)]"

definition extract_step :: "env \<Rightarrow> File \<Rightarrow> effect list" where
  "extract_step e file =
     [SetStatus Extracting,
      SetStatusMessage
        (if isPdf file then ''Extracting from PDF...'' else ''Extracting structured data...''),
      POST (extractEndpoint file) file] @
     (case api_POST e (extractEndpoint file) file of
        Threw err \<Rightarrow> catch_block e err
      | Returned extractRes \<Rightarrow>
          if truthy (error extractRes) then
            [SetStatus Error,
             SetErrorMessage (''Extraction failed: '' @ stringify e (error extractRes))]
          else
            [SetStatus Complete,
             SetStatusMessage ''Processing complete'',
             SetResultData (data extractRes)])"

definition handleUpload :: "env \<Rightarrow> File option \<Rightarrow> effect list" where
  "handleUpload e file_opt =
     (case file_opt of
        None \<Rightarrow> [SetErrorMessage ''Please select a file first'']
      | Some file \<Rightarrow>
          [SetStatus Uploading,
           SetStatusMessage ''Uploading file...'',
           SetErrorMessage '''',
           POST ''/api/ingest'' file] @
          (case api_POST e ''/api/ingest'' file of
             Threw err \<Rightarrow> catch_block e err
           | Returned ingestRes \<Rightarrow>
               if truthy (error ingestRes) then
                 [SetStatus Error,
                  SetErrorMessage (''Upload failed: '' @ stringify e (error ingestRes))]
               else
                 [SetStatus Uploaded,
                  SetStatusMessage ''File uploaded successfully''] @
                 extract_step e file))"

text \<open>The component state and what each setter does to it.\<close>

record page_state =
  the_file :: "File option"
  status :: UploadStatus
  statusMessage :: string
  resultData :: jsval
  errorMessage :: string

fun apply_effect :: "page_state \<Rightarrow> effect \<Rightarrow> page_state" where
  "apply_effect s (SetStatus v) = s\<lparr>status := v\<rparr>"
| "apply_effect s (SetStatusMessage m) = s\<lparr>statusMessage := m\<rparr>"
| "apply_effect s (SetResultData d) = s\<lparr>resultData := d\<rparr>"
| "apply_effect s (SetErrorMessage m) = s\<lparr>errorMessage := m\<rparr>"
| "apply_effect s (POST path f) = s"

definition run_handleUpload :: "env \<Rightarrow> page_state \<Rightarrow> page_state" where
  "run_handleUpload e s = foldl apply_effect s (handleUpload e (the_file s))"

text \<open>The requests among the effects, in the order they were sent.\<close>

fun requests :: "effect list \<Rightarrow> string list" where
  "requests [] = []"
| "requests (POST path f # es) = path # requests es"
| "requests (x # es) = requests es"

text \<open>
  The claim's words for the document class of a file: its final filename extension, the
  text after the last dot of a name that has a dot. A name without a dot has no
  extension. This definition is not taken from the code; it is what the dispatch of the
  code is compared with.
\<close>

definition spec_final_extension :: "string \<Rightarrow> string option" where
  "spec_final_extension nm =
     (if CHR ''.'' \<in> set nm
      then Some (rev (takeWhile (\<lambda>c. c \<noteq> CHR ''.'') (rev nm)))
      else None)"

section \<open>The typed client helpers\<close>

text \<open>
  \<^verbatim>\<open>api.GET(path, params)\<close> is a parameter of the helpers. A helper either returns a
  value (\<open>Inr\<close>) or throws one (\<open>Inl\<close>); a rejected request is rethrown by \<^verbatim>\<open>await\<close>.
  \<^verbatim>\<open>args[0] ?? {}\<close> replaces \<^verbatim>\<open>undefined\<close> and \<^verbatim>\<open>null\<close> by an empty object.
\<close>

definition nullish_or :: "jsval \<Rightarrow> jsval \<Rightarrow> jsval" where
  "nullish_or v d = (if v = Undefined \<or> v = Null then d else v)"

definition apiGet :: "(string \<Rightarrow> jsval \<Rightarrow> outcome) \<Rightarrow> string \<Rightarrow> jsval \<Rightarrow> jsval + jsval" where
  "apiGet GET path arg0 =
     (let params = nullish_or arg0 (Obj []) in
      case GET path params of
        Threw err \<Rightarrow> Inl err
      | Returned res \<Rightarrow> if truthy (error res) then Inl (error res) else Inr (data res))"

definition getVendors :: "(string \<Rightarrow> jsval \<Rightarrow> outcome) \<Rightarrow> jsval + jsval" where
  "getVendors GET =
     (case GET ''/vendors'' Undefined of
        Threw err \<Rightarrow> Inl err
      | Returned res \<Rightarrow> if truthy (error res) then Inl (error res) else Inr (data res))"

section \<open>The list pages: invoices and alerts\<close>

definition asArray :: "jsval \<Rightarrow> jsval list" where
  "asArray v = (case v of Arr xs \<Rightarrow> xs | _ \<Rightarrow> [])"

definition asObject :: "jsval \<Rightarrow> jsval" where
  "asObject v = (if truthy v \<and> typeof v = ''object'' then v else Obj [])"

text \<open>The constant \<^verbatim>\<open>items\<close> of both pages, and the rows they render from it.\<close>

definition items :: "jsval \<Rightarrow> jsval list" where
  "items raw =
     (if length (asArray (get_prop (asObject raw) ''items'')) > 0
      then asArray (get_prop (asObject raw) ''items'')
      else asArray raw)"

definition rendered_rows :: "jsval \<Rightarrow> jsval list" where
  "rendered_rows raw = map asObject (items raw)"

text \<open>The em dash the alerts page shows for a missing field, as its UTF-8 bytes.\<close>

definition dash :: string where
  "dash = [char_of (226 :: nat), char_of (128 :: nat), char_of (148 :: nat)]"

definition pickStatus :: "jsval \<Rightarrow> string" where
  "pickStatus obj = (case get_prop obj ''status'' of Str v \<Rightarrow> v | _ \<Rightarrow> dash)"

definition isResolved :: "string \<Rightarrow> bool" where
  "isResolved status_str =
     (toLowerCase status_str = ''resolved'' \<or>
      toLowerCase status_str = ''dismissed'' \<or>
      toLowerCase status_str = ''acknowledged'')"

text \<open>
  Modelled from the spec: the alert status domain and the update operation of the
  server, which are not among the sources. The spec gives the states
  \<^verbatim>\<open>open\<close>, \<^verbatim>\<open>acknowledged\<close>, \<^verbatim>\<open>dismissed\<close>, the transitions
  \<^verbatim>\<open>open -> acknowledged\<close> and \<^verbatim>\<open>open -> dismissed\<close>, and an update that rejects
  transitions out of a terminal status.
\<close>

datatype AlertStatus = Open | Acknowledged | Dismissed

fun status_name :: "AlertStatus \<Rightarrow> string" where
  "status_name Open = ''open''"
| "status_name Acknowledged = ''acknowledged''"
| "status_name Dismissed = ''dismissed''"

fun terminal :: "AlertStatus \<Rightarrow> bool" where
  "terminal Open = False"
| "terminal Acknowledged = True"
| "terminal Dismissed = True"

fun update_alert :: "AlertStatus \<Rightarrow> AlertStatus \<Rightarrow> AlertStatus option" where
  "update_alert Open Acknowledged = Some Acknowledged"
| "update_alert Open Dismissed = Some Dismissed"
| "update_alert cur target = None"

section \<open>The authentication middleware\<close>

text \<open>
  The matcher is the pattern
  \<^verbatim>\<open>/((?!api/auth|login|_next/static|_next/image|favicon.ico).*)\<close>
  applied to the whole path: a slash, then a negative lookahead over five alternatives,
  then any characters. Inside the alternatives every character stands for itself except
  the dot of \<^verbatim>\<open>favicon.ico\<close>, which the pattern language reads as any character other
  than a line terminator. A request path is a URL path, a string of ASCII characters
  (any other character arrives percent-encoded), so one byte is one character.
\<close>

datatype atom = Lit char | AnyChar

definition line_terminator :: "char \<Rightarrow> bool" where
  "line_terminator c = (c = CHR 0x0A \<or> c = CHR 0x0D)"

fun atom_matches :: "atom \<Rightarrow> char \<Rightarrow> bool" where
  "atom_matches (Lit a) c = (a = c)"
| "atom_matches AnyChar c = (\<not> line_terminator c)"

fun matches_prefix :: "atom list \<Rightarrow> string \<Rightarrow> bool" where
  "matches_prefix [] s = True"
| "matches_prefix (a # as) [] = False"
| "matches_prefix (a # as) (c # cs) = (atom_matches a c \<and> matches_prefix as cs)"

definition excluded :: "atom list list" where
  "excluded =
     [map Lit ''api/auth'',
      map Lit ''login'',
      map Lit ''_next/static'',
      map Lit ''_next/image'',
      map Lit ''favicon'' @ [AnyChar] @ map Lit ''ico'']"

definition matcher :: "string \<Rightarrow> bool" where
  "matcher path =
     (case path of
        [] \<Rightarrow> False
      | c # rest \<Rightarrow>
          c = CHR ''/'' \<and>
          \<not> list_ex (\<lambda>alt. matches_prefix alt rest) excluded \<and>
          \<not> list_ex line_terminator rest)"

text \<open>
  The token handed to the \<^verbatim>\<open>authorized\<close> callback is the decoded session token or
  \<^verbatim>\<open>null\<close>; the callback is \<^verbatim>\<open>!!token\<close>.
\<close>

definition token_value :: "(string \<times> jsval) list option \<Rightarrow> jsval" where
  "token_value tok = (case tok of None \<Rightarrow> Null | Some claims \<Rightarrow> Obj claims)"

definition authorized :: "(string \<times> jsval) list option \<Rightarrow> bool" where
  "authorized tok = truthy (token_value tok)"

text \<open>
  What the wrapper \<^verbatim>\<open>withAuth\<close> of the authentication library does when the
  middleware runs. The library is not part of the repository; this follows its request
  handler. The middleware file passes the \<^verbatim>\<open>authorized\<close> callback only, so the sign-in
  and error pages are the library's defaults. A request whose path (behind the base
  path) starts with the auth path (the path of \<^verbatim>\<open>NEXTAUTH_URL\<close>, \<^verbatim>\<open>/api/auth\<close> unless
  configured otherwise), or is the sign-in or the error page, or starts with \<^verbatim>\<open>/_next\<close>
  or \<^verbatim>\<open>/favicon.ico\<close>, is let through before any token is read. Without a configured
  secret the request is redirected to the error page. Otherwise the token is read; the
  request goes on when \<^verbatim>\<open>authorized\<close> holds and is redirected to the sign-in page when
  it does not. On a path the matcher does not cover, the middleware does not run.
\<close>

record auth_config =
  base_path :: string
  auth_path :: string
  has_secret :: bool

definition starts_with :: "string \<Rightarrow> string \<Rightarrow> bool" where
  "starts_with s p = (take (length p) s = p)"

definition signInPage :: string where
  "signInPage = ''/api/auth/signin''"

definition errorPage :: string where
  "errorPage = ''/api/auth/error''"

definition publicPaths :: "string list" where
  "publicPaths = [''/_next'', ''/favicon.ico'']"

definition never_requires_auth :: "auth_config \<Rightarrow> string \<Rightarrow> bool" where
  "never_requires_auth cfg pathname =
     (starts_with (base_path cfg @ pathname) (auth_path cfg) \<or>
      List.member [signInPage, errorPage] pathname \<or>
      list_ex (starts_with pathname) publicPaths)"

datatype decision = Continue | RedirectToSignIn | RedirectToError

definition handleMiddleware ::
  "auth_config \<Rightarrow> string \<Rightarrow> (string \<times> jsval) list option \<Rightarrow> decision" where
  "handleMiddleware cfg pathname tok =
     (if never_requires_auth cfg pathname then Continue
      else if \<not> has_secret cfg then RedirectToError
      else if authorized tok then Continue
      else RedirectToSignIn)"

definition middleware ::
  "auth_config \<Rightarrow> string \<Rightarrow> (string \<times> jsval) list option \<Rightarrow> decision" where
  "middleware cfg pathname tok =
     (if matcher pathname then handleMiddleware cfg pathname tok else Continue)"

section \<open>The ingestion gate\<close>

text \<open>
  Modelled from the spec: the ingestion gate (the handler of \<^verbatim>\<open>POST /api/ingest\<close>) is
  server code that is not among the sources; only its endpoint contract and the spec's
  description are. The gate computes the content fingerprint, looks up an existing
  RawDocument by (org, fingerprint) and returns it with \<^verbatim>\<open>duplicate = true\<close> when
  found (no storage write, no row); otherwise it stores the bytes, inserts the metadata
  row that references the returned storage locator, and emits a "document received"
  notification. A storage failure is fatal to the call and creates no row; a failed
  insert after a successful store leaves the stored object orphaned, without rollback.
  The fingerprint function, the outcome of the blob collaborator (the locator, or
  failure), the outcome of the insert and the clock are parameters of a call.
\<close>

record RawDocument =
  doc_id :: nat
  org :: string
  contentHash :: string
  storageRef :: string
  mime :: string
  byteSize :: nat
  uploadedAt :: nat

record store =
  raw_docs :: "RawDocument list"
  blobs :: "(string \<times> string) list"

record ingest_response =
  documentId :: nat
  storageLocator :: string
  duplicate :: bool

datatype ingest_error = StorageError | MetadataInsertError

datatype notification = DocumentReceived nat

definition same_content :: "string \<Rightarrow> string \<Rightarrow> RawDocument \<Rightarrow> bool" where
  "same_content org_id fingerprint d = (org d = org_id \<and> contentHash d = fingerprint)"

definition next_doc_id :: "RawDocument list \<Rightarrow> nat" where
  "next_doc_id ds = Suc (fold max (map doc_id ds) 0)"

definition ingest ::
  "(string \<Rightarrow> string) \<Rightarrow> string option \<Rightarrow> bool \<Rightarrow> nat \<Rightarrow> store \<Rightarrow>
   string \<Rightarrow> string \<Rightarrow> string \<Rightarrow> string \<Rightarrow>
   (ingest_error + ingest_response) \<times> store \<times> notification list" where
  "ingest fp put_result insert_ok now st org_id content filename mime_type =
     (case find (same_content org_id (fp content)) (raw_docs st) of
        Some d \<Rightarrow>
          (Inr \<lparr>documentId = doc_id d, storageLocator = storageRef d, duplicate = True\<rparr>,
           st, [])
      | None \<Rightarrow>
          (case put_result of
             None \<Rightarrow> (Inl StorageError, st, [])
           | Some locator \<Rightarrow>
               let stored = st\<lparr>blobs := blobs st @ [(locator, content)]\<rparr> in
               if \<not> insert_ok then (Inl MetadataInsertError, stored, [])
               else
                 let d = \<lparr>doc_id = next_doc_id (raw_docs st), org = org_id,
                          contentHash = fp content, storageRef = locator,
                          mime = mime_type, byteSize = length content,
                          uploadedAt = now\<rparr>
                 in (Inr \<lparr>documentId = doc_id d, storageLocator = locator,
                           duplicate = False\<rparr>,
                     stored\<lparr>raw_docs := raw_docs st @ [d]\<rparr>,
                     [DocumentReceived (doc_id d)])))"

text \<open>The spec's invariant: (org, contentHash) is unique among the RawDocument rows.\<close>

definition unique_docs :: "store \<Rightarrow> bool" where
  "unique_docs st = distinct (map (\<lambda>d. (org d, contentHash d)) (raw_docs st))"

definition rows_of :: "string \<Rightarrow> string \<Rightarrow> store \<Rightarrow> RawDocument list" where
  "rows_of org_id fingerprint st = filter (same_content org_id fingerprint) (raw_docs st)"

section \<open>The validator's arithmetic rules\<close>

text \<open>
  Modelled from the spec: the validator is server code that is not among the sources.
  The spec gives its rules in evaluation order: each line's arithmetic
  (\<^verbatim>\<open>|lineTotal - quantity * unitPrice| <= tolerance\<close>), the sum of the line totals against
  the declared subtotal, subtotal plus tax against the declared total, the currency code
  against a known set, and the required identifying fields (vendor, invoice number,
  date). Every finding is reported, none is fatal. Amounts are exact decimals; the
  tolerance is a parameter of the validator (the spec's default is 0.02).
\<close>

record InvoiceLine =
  sku :: string
  description :: string
  quantity :: rat
  unitPrice :: rat
  lineTotal :: rat

record Invoice =
  vendorRef :: string
  invoiceNo :: string
  invoiceDate :: string
  currency :: string
  subtotal :: rat
  tax :: rat
  total :: rat
  lines :: "InvoiceLine list"










section \<open>Sample inputs\<close>

text \<open>Concrete files, responses and collaborators at which the theorems below are run.\<close>

definition sample_pdf :: File where
  "sample_pdf = \<lparr>name = ''Invoice-1042.PDF'', bytes = ''%PDF-1.7''\<rparr>"

definition sample_csv :: File where
  "sample_csv = \<lparr>name = ''invoices.2025.csv'', bytes = ''invoice_no,vendor,total''\<rparr>"

definition dotless_pdf :: File where
  "dotless_pdf = \<lparr>name = ''pdf'', bytes = ''invoice_no,vendor,total''\<rparr>"

definition ingest_duplicate :: response where
  "ingest_duplicate =
     \<lparr>data = Obj [(''raw_doc_id'', Num 7),
                  (''s3_key'', Str ''org/o1/uploads/u1/invoices.2025.csv''),
                  (''duplicate'', Bool True)],
      error = Undefined\<rparr>"

definition extract_done :: response where
  "extract_done =
     \<lparr>data = Obj [(''invoice_id'', Num 12), (''needs_review'', Bool False)],
      error = Undefined\<rparr>"

definition env_ok :: env where
  "env_ok =
     \<lparr>api_POST = (\<lambda>path f. if path = ''/api/ingest'' then Returned ingest_duplicate
                             else Returned extract_done),
      stringify = (\<lambda>v. ''{}''),
      err_text = (\<lambda>v. ''Failed to fetch'')\<rparr>"

text \<open>
  What the API client resolves to for a failed request (status 500) whose body is empty
  and carries no content length: no data, and the empty text of the body as the error.
\<close>

definition empty_error :: response where
  "empty_error = \<lparr>data = Undefined, error = Str []\<rparr>"

definition env_empty_ingest_error :: env where
  "env_empty_ingest_error =
     env_ok\<lparr>api_POST := (\<lambda>path f. if path = ''/api/ingest'' then Returned empty_error
                                     else Returned extract_done)\<rparr>"

definition idle_page :: "File option \<Rightarrow> page_state" where
  "idle_page f =
     \<lparr>the_file = f, status = Idle, statusMessage = [], resultData = Null,
      errorMessage = []\<rparr>"

definition empty_store :: store where
  "empty_store = \<lparr>raw_docs = [], blobs = []\<rparr>"

definition first_doc :: RawDocument where
  "first_doc =
     \<lparr>doc_id = 1, org = ''o1'', contentHash = ''h:a,b'',
      storageRef = ''org/o1/uploads/u1/a.csv'', mime = ''text/csv'', byteSize = 3,
      uploadedAt = 100\<rparr>"

definition store_after_first :: store where
  "store_after_first =
     \<lparr>raw_docs = [first_doc], blobs = [(''org/o1/uploads/u1/a.csv'', ''a,b'')]\<rparr>"

definition sample_fp :: "string \<Rightarrow> string" where
  "sample_fp content = ''h:'' @ content"





definition default_auth :: auth_config where
  "default_auth = \<lparr>base_path = [], auth_path = ''/api/auth'', has_secret = True\<rparr>"

definition not_found :: response where
  "not_found = \<lparr>data = Undefined, error = Obj [(''detail'', Str ''Not Found'')]\<rparr>"

definition vendor_list :: response where
  "vendor_list = \<lparr>data = Arr [Obj [(''name'', Str ''Acme'')]], error = Undefined\<rparr>"

definition two_rows :: "jsval list" where
  "two_rows = [Obj [(''id'', Num 1)], Num 2]"

section \<open>Strings: lemmas\<close>

lemma of_char_lower_char:
  "(of_char (lower_char c) :: nat) =
     (if 65 \<le> (of_char c :: nat) \<and> (of_char c :: nat) \<le> 90
      then of_char c + 32 else of_char c)"
  by (simp add: lower_char_def Let_def)

lemma lower_char_dot: "lower_char c = CHR ''.'' \<longleftrightarrow> c = CHR ''.''"
proof
  assume h: "lower_char c = CHR ''.''"
  have "(of_char (lower_char c) :: nat) = 46" by (simp add: h)
  then have "(of_char c :: nat) = 46"
    by (simp add: of_char_lower_char split: if_splits)
  then have "(of_char c :: nat) = of_char (CHR ''.'')" by simp
  then show "c = CHR ''.''" by (simp only: of_char_eq_iff)
next
  assume "c = CHR ''.''"
  then show "lower_char c = CHR ''.''" by (simp add: lower_char_def)
qed

lemma split_not_Nil: "split sep s \<noteq> []"
  by (induction s) (auto split: list.splits)

lemma split_append: "split sep (a @ sep # b) = split sep a @ split sep b"
proof (induction a)
  case Nil
  then show ?case by simp
next
  case (Cons c cs)
  obtain w ws where ws: "split sep cs = w # ws"
    using split_not_Nil [of sep cs] by (cases "split sep cs") auto
  show ?case using Cons ws by simp
qed

lemma split_no_sep: "sep \<notin> set s \<Longrightarrow> split sep s = [s]"
  by (induction s) auto

lemma split_Cons:
  "c \<noteq> sep \<Longrightarrow> split sep (c # cs) = (c # hd (split sep cs)) # tl (split sep cs)"
  using split_not_Nil [of sep cs] by (cases "split sep cs") auto

lemma toLowerCase_Cons:
  assumes "\<not> (c = CHR 0xE2 \<and> take 2 w = [CHR 0x84, CHR 0xAA])"
  shows "toLowerCase (c # w) = lower_char c # toLowerCase w"
proof (cases w)
  case Nil
  then show ?thesis by simp
next
  case outer: (Cons c2 w2)
  show ?thesis
  proof (cases w2)
    case Nil
    then show ?thesis using outer by simp
  next
    case (Cons c3 w3)
    then show ?thesis using assms outer by (auto simp: kelvin_sign_def)
  qed
qed

text \<open>Lower-casing a name and cutting it at the dots can be done in either order.\<close>

lemma split_toLowerCase:
  "split (CHR ''.'') (toLowerCase s) = map toLowerCase (split (CHR ''.'') s)"
proof (induction s rule: toLowerCase.induct)
  case (1 c1 c2 c3 cs)
  show ?case
  proof (cases "[c1, c2, c3] = kelvin_sign")
    case True
    then have c: "c1 = CHR 0xE2" "c2 = CHR 0x84" "c3 = CHR 0xAA"
      by (simp_all add: kelvin_sign_def)
    have l: "toLowerCase (c1 # c2 # c3 # cs) = CHR ''k'' # toLowerCase cs"
      using True by simp
    have r: "split (CHR ''.'') (c1 # c2 # c3 # cs) =
        (c1 # c2 # c3 # hd (split (CHR ''.'') cs)) # tl (split (CHR ''.'') cs)"
      using c by (simp add: split_Cons del: split.simps)
    have k: "toLowerCase (c1 # c2 # c3 # w) = CHR ''k'' # toLowerCase w" for w
      using True by simp
    have "split (CHR ''.'') (CHR ''k'' # toLowerCase cs) =
        (CHR ''k'' # toLowerCase (hd (split (CHR ''.'') cs))) #
        map toLowerCase (tl (split (CHR ''.'') cs))"
      using 1(1) [OF True] split_not_Nil [of "CHR ''.''" cs]
      by (simp add: split_Cons hd_map map_tl del: split.simps)
    then show ?thesis unfolding l r using k by simp
  next
    case False
    note IH = 1(2) [OF False]
    have l: "toLowerCase (c1 # c2 # c3 # cs) = lower_char c1 # toLowerCase (c2 # c3 # cs)"
      using False by simp
    show ?thesis
    proof (cases "c1 = CHR ''.''")
      case True
      then show ?thesis unfolding l using IH by (simp add: lower_char_dot)
    next
      case ndot: False
      let ?w = "hd (split (CHR ''.'') (c2 # c3 # cs))"
      have nk: "\<not> (c1 = CHR 0xE2 \<and> take 2 ?w = [CHR 0x84, CHR 0xAA])"
      proof
        assume a: "c1 = CHR 0xE2 \<and> take 2 ?w = [CHR 0x84, CHR 0xAA]"
        have "c2 = CHR 0x84 \<and> c3 = CHR 0xAA"
        proof (cases "c2 = CHR ''.''")
          case True
          then show ?thesis using a by simp
        next
          case c2: False
          show ?thesis
          proof (cases "c3 = CHR ''.''")
            case True
            then show ?thesis
              using a c2 by (simp add: split_Cons [of c2] del: split.simps) simp
          next
            case False
            then show ?thesis using a c2 by (simp add: split_Cons del: split.simps)
          qed
        qed
        then show False using a False by (simp add: kelvin_sign_def)
      qed
      have "split (CHR ''.'') (lower_char c1 # toLowerCase (c2 # c3 # cs)) =
          (lower_char c1 # toLowerCase ?w) #
          map toLowerCase (tl (split (CHR ''.'') (c2 # c3 # cs)))"
        using IH ndot split_not_Nil [of "CHR ''.''" "c2 # c3 # cs"]
        by (simp add: split_Cons [of "lower_char c1"] lower_char_dot hd_map map_tl
            del: split.simps)
      moreover have "map toLowerCase (split (CHR ''.'') (c1 # c2 # c3 # cs)) =
          toLowerCase (c1 # ?w) # map toLowerCase (tl (split (CHR ''.'') (c2 # c3 # cs)))"
        using ndot by (simp add: split_Cons [of c1] del: split.simps toLowerCase.simps)
      ultimately show ?thesis unfolding l using toLowerCase_Cons [OF nk] by simp
    qed
  qed
qed (auto simp: lower_char_dot)

lemma last_split_pdf:
  "last (split (CHR ''.'') t) = ''pdf'' \<longleftrightarrow> t = ''pdf'' \<or> (\<exists>stem. t = stem @ ''.pdf'')"
proof
  assume h: "last (split (CHR ''.'') t) = ''pdf''"
  show "t = ''pdf'' \<or> (\<exists>stem. t = stem @ ''.pdf'')"
  proof (cases "CHR ''.'' \<in> set t")
    case False
    then show ?thesis using h by (simp add: split_no_sep)
  next
    case True
    then obtain a b where ab: "t = a @ CHR ''.'' # b" "CHR ''.'' \<notin> set b"
      by (auto dest: split_list_last)
    then have "last (split (CHR ''.'') t) = b"
      by (simp add: split_append split_no_sep)
    then show ?thesis using h ab by auto
  qed
next
  assume "t = ''pdf'' \<or> (\<exists>stem. t = stem @ ''.pdf'')"
  then show "last (split (CHR ''.'') t) = ''pdf''"
  proof
    assume "t = ''pdf''"
    then show ?thesis by simp
  next
    assume "\<exists>stem. t = stem @ ''.pdf''"
    then obtain stem where "t = stem @ CHR ''.'' # ''pdf''" by auto
    then have "last (split (CHR ''.'') t) = last (split (CHR ''.'') ''pdf'')"
      by (simp add: split_append split_not_Nil del: split.simps)
    also have "\<dots> = ''pdf''" by simp
    finally show ?thesis .
  qed
qed

lemma isPdf_iff:
  "isPdf f \<longleftrightarrow>
     toLowerCase (name f) = ''pdf'' \<or> (\<exists>stem. toLowerCase (name f) = stem @ ''.pdf'')"
proof -
  have "isPdf f \<longleftrightarrow> toLowerCase (last (split (CHR ''.'') (name f))) = ''pdf''"
    by (simp add: isPdf_def pop_def split_not_Nil)
  also have "toLowerCase (last (split (CHR ''.'') (name f))) =
      last (split (CHR ''.'') (toLowerCase (name f)))"
    by (simp add: split_toLowerCase last_map split_not_Nil)
  finally show ?thesis by (simp only: last_split_pdf)
qed

text \<open>On a name that has a dot, the dispatch of the code is the one by the extension.\<close>

lemma last_split_extension:
  assumes "CHR ''.'' \<in> set nm"
  shows "spec_final_extension nm = Some (last (split (CHR ''.'') nm))"
proof -
  obtain a b where ab: "nm = a @ CHR ''.'' # b" "CHR ''.'' \<notin> set b"
    using assms by (auto dest: split_list_last)
  have "last (split (CHR ''.'') nm) = b"
    using ab by (simp add: split_append split_no_sep)
  moreover have "takeWhile (\<lambda>c. c \<noteq> CHR ''.'') (rev b @ CHR ''.'' # rev a) = rev b"
    using ab(2) by (auto simp: takeWhile_append2 takeWhile_tail)
  ultimately show ?thesis
    using assms ab by (simp add: spec_final_extension_def)
qed

lemma isPdf_with_dot:
  "CHR ''.'' \<in> set (name f) \<Longrightarrow>
     isPdf f \<longleftrightarrow> map_option toLowerCase (spec_final_extension (name f)) = Some ''pdf''"
  by (simp add: last_split_extension isPdf_def pop_def split_not_Nil)

lemma toLowerCase_samples:
  "toLowerCase ''Invoice-1042.PDF'' = ''invoice-1042.pdf''"
  "toLowerCase ''invoices.2025.csv'' = ''invoices.2025.csv''"
  "toLowerCase ''pdf'' = ''pdf''"
  "toLowerCase ''csv'' = ''csv''"
  "toLowerCase ''open'' = ''open''"
  "toLowerCase ''OPEN'' = ''open''"
  "toLowerCase ''resolved'' = ''resolved''"
  "toLowerCase ''Resolved'' = ''resolved''"
  "toLowerCase ''dismissed'' = ''dismissed''"
  "toLowerCase ''Dismissed'' = ''dismissed''"
  "toLowerCase ''acknowledged'' = ''acknowledged''"
  "toLowerCase ''ACKNOWLEDGED'' = ''acknowledged''"
  by code_simp+

section \<open>The uploads page: theorems\<close>

lemma requests_append: "requests (xs @ ys) = requests xs @ requests ys"
  by (induction xs rule: requests.induct) auto

lemma requests_extract_step: "requests (extract_step e f) = [extractEndpoint f]"
  by (auto simp: extract_step_def catch_block_def split: outcome.splits)

lemma isPdf_samples: "isPdf sample_pdf" "\<not> isPdf sample_csv" "isPdf dotless_pdf"
  by code_simp+

text \<open>
  Claim C10. Pressing Upload with no file selected has no remote side effect: when
  \<open>handleUpload\<close> runs while the selected file is \<^verbatim>\<open>null\<close>, its only effect is to set
  the error message "Please select a file first". No ingest or extraction request is
  sent, and the upload status keeps the value it had.
\<close>

theorem handleUpload_without_file:
  "handleUpload e None = [SetErrorMessage ''Please select a file first''] \<and>
   requests (handleUpload e None) = [] \<and>
   status (run_handleUpload e (s\<lparr>the_file := None\<rparr>)) = status s \<and>
   errorMessage (run_handleUpload e (s\<lparr>the_file := None\<rparr>)) = ''Please select a file first''"
  by (simp add: handleUpload_def run_handleUpload_def)

theorem handleUpload_without_file_witness:
  "handleUpload env_ok None = [SetErrorMessage ''Please select a file first''] \<and>
   requests (handleUpload env_ok None) = [] \<and>
   status (run_handleUpload env_ok (idle_page None)) = Idle \<and>
   errorMessage (run_handleUpload env_ok (idle_page None)) = ''Please select a file first''"
  using handleUpload_without_file [of env_ok "idle_page None"]
  by (simp add: idle_page_def)

text \<open>
  What the page does with an ingest response whose \<^verbatim>\<open>error\<close> value is truthy: the only
  request sent is the ingest one, the status ends as \<^verbatim>\<open>error\<close> and the error message
  reports the ingest error. And whenever any request other than the ingest one is sent,
  a file was selected, the ingest call had returned before with an \<^verbatim>\<open>error\<close> value that
  is not truthy, and the requests were the ingest one followed by that single extraction
  request.
\<close>

lemma truthy_ingest_error_ends_upload:
  "(api_POST e ''/api/ingest'' f = Returned r \<and> truthy (error r) \<longrightarrow>
      requests (handleUpload e (Some f)) = [''/api/ingest''] \<and>
      status (run_handleUpload e (s\<lparr>the_file := Some f\<rparr>)) = Error \<and>
      errorMessage (run_handleUpload e (s\<lparr>the_file := Some f\<rparr>)) =
        ''Upload failed: '' @ stringify e (error r)) \<and>
   (p \<in> set (requests (handleUpload e fo)) \<and> p \<noteq> ''/api/ingest'' \<longrightarrow>
      (\<exists>f' r'. fo = Some f' \<and> api_POST e ''/api/ingest'' f' = Returned r' \<and>
         \<not> truthy (error r') \<and>
         requests (handleUpload e fo) = [''/api/ingest'', p] \<and> p = extractEndpoint f'))"
proof (intro conjI impI)
  assume h: "api_POST e ''/api/ingest'' f = Returned r \<and> truthy (error r)"
  then show "requests (handleUpload e (Some f)) = [''/api/ingest'']"
    by (simp add: handleUpload_def)
  from h show "status (run_handleUpload e (s\<lparr>the_file := Some f\<rparr>)) = Error"
    by (simp add: handleUpload_def run_handleUpload_def)
  from h show "errorMessage (run_handleUpload e (s\<lparr>the_file := Some f\<rparr>)) =
        ''Upload failed: '' @ stringify e (error r)"
    by (simp add: handleUpload_def run_handleUpload_def)
next
  assume h: "p \<in> set (requests (handleUpload e fo)) \<and> p \<noteq> ''/api/ingest''"
  show "\<exists>f' r'. fo = Some f' \<and> api_POST e ''/api/ingest'' f' = Returned r' \<and>
         \<not> truthy (error r') \<and>
         requests (handleUpload e fo) = [''/api/ingest'', p] \<and> p = extractEndpoint f'"
  proof (cases fo)
    case None
    then show ?thesis using h by (simp add: handleUpload_def)
  next
    case (Some f')
    show ?thesis
    proof (cases "api_POST e ''/api/ingest'' f'")
      case (Threw err)
      then show ?thesis using h Some by (simp add: handleUpload_def catch_block_def)
    next
      case (Returned r')
      show ?thesis
      proof (cases "truthy (error r')")
        case True
        then show ?thesis using h Some Returned by (simp add: handleUpload_def)
      next
        case False
        then show ?thesis using h Some Returned
          by (auto simp add: handleUpload_def requests_append requests_extract_step)
      qed
    qed
  qed
qed

text \<open>
  Claim C2 says that an ingest call that returns an error ends the upload in the
  \<^verbatim>\<open>error\<close> state with no extraction request. The page at an ingest response whose
  \<^verbatim>\<open>error\<close> is the empty string, which is what a failed request with an empty body
  gives: the value is falsy, so \<^verbatim>\<open>if (ingestRes.error)\<close> does not take the error branch.
  The status goes on to \<^verbatim>\<open>uploaded\<close>, the extraction request is sent, and the flow ends
  as \<^verbatim>\<open>complete\<close>.
\<close>

theorem empty_ingest_error_proceeds:
  "api_POST env_empty_ingest_error ''/api/ingest'' sample_csv = Returned empty_error \<and>
   error empty_error = Str [] \<and>
   requests (handleUpload env_empty_ingest_error (Some sample_csv)) =
     [''/api/ingest'', ''/extract/structured''] \<and>
   SetStatus Uploaded \<in> set (handleUpload env_empty_ingest_error (Some sample_csv)) \<and>
   status (run_handleUpload env_empty_ingest_error (idle_page (Some sample_csv))) = Complete \<and>
   errorMessage (run_handleUpload env_empty_ingest_error (idle_page (Some sample_csv))) = []"
  using isPdf_samples
  by (simp add: env_empty_ingest_error_def env_ok_def empty_error_def extract_done_def
      handleUpload_def extract_step_def extractEndpoint_def run_handleUpload_def idle_page_def)

text \<open>
  Claim C6. A detected duplicate is a flag, not an exception: for every ingest response
  without an \<^verbatim>\<open>error\<close> field, whatever its data (the \<^verbatim>\<open>duplicate\<close> flag included), the
  upload is treated as successful. The status advances to \<^verbatim>\<open>uploaded\<close> and the flow goes
  on to the extraction stage, which sets \<^verbatim>\<open>extracting\<close> and sends the extraction
  request; the effects do not depend on the data of the ingest response, and the error
  branch of the ingest stage is not taken.
\<close>

theorem duplicate_is_not_an_error:
  assumes "api_POST e ''/api/ingest'' f = Returned r" and "error r = Undefined"
  shows "handleUpload e (Some f) =
           [SetStatus Uploading, SetStatusMessage ''Uploading file...'', SetErrorMessage '''',
            POST ''/api/ingest'' f,
            SetStatus Uploaded, SetStatusMessage ''File uploaded successfully''] @
           extract_step e f \<and>
         take 3 (extract_step e f) =
           [SetStatus Extracting,
            SetStatusMessage (if isPdf f then ''Extracting from PDF...''
                              else ''Extracting structured data...''),
            POST (extractEndpoint f) f] \<and>
         requests (handleUpload e (Some f)) = [''/api/ingest'', extractEndpoint f]"
  using assms
  by (simp add: handleUpload_def requests_append requests_extract_step)
     (simp add: extract_step_def)

theorem duplicate_is_not_an_error_witness:
  "api_POST env_ok ''/api/ingest'' sample_csv = Returned ingest_duplicate \<and>
   error ingest_duplicate = Undefined \<and>
   get_prop (data ingest_duplicate) ''duplicate'' = Bool True \<and>
   take 9 (handleUpload env_ok (Some sample_csv)) =
     [SetStatus Uploading, SetStatusMessage ''Uploading file...'', SetErrorMessage '''',
      POST ''/api/ingest'' sample_csv,
      SetStatus Uploaded, SetStatusMessage ''File uploaded successfully'',
      SetStatus Extracting, SetStatusMessage ''Extracting structured data...'',
      POST ''/extract/structured'' sample_csv] \<and>
   requests (handleUpload env_ok (Some sample_csv)) = [''/api/ingest'', ''/extract/structured'']"
proof -
  have a: "api_POST env_ok ''/api/ingest'' sample_csv = Returned ingest_duplicate"
    by (simp add: env_ok_def)
  have b: "error ingest_duplicate = Undefined"
    by (simp add: ingest_duplicate_def)
  have d: "get_prop (data ingest_duplicate) ''duplicate'' = Bool True"
    by (simp add: ingest_duplicate_def)
  show ?thesis using a b d isPdf_samples duplicate_is_not_an_error [OF a b]
    by (simp add: extractEndpoint_def requests_extract_step)
qed

text \<open>
  The dispatch of the page. After an ingest call that returned with no truthy error,
  exactly one extraction request follows the ingest request, and its endpoint is chosen
  by the last dot-separated piece of the file name, lower-cased: a file whose lower-cased
  name ends in \<^verbatim>\<open>.pdf\<close>, or is \<^verbatim>\<open>pdf\<close> as a whole, is sent to
  \<^verbatim>\<open>/extract/unstructured\<close>; every other file is sent to \<^verbatim>\<open>/extract/structured\<close>.
\<close>

lemma extraction_dispatch:
  assumes "api_POST e ''/api/ingest'' f = Returned r" and "\<not> truthy (error r)"
  shows "requests (handleUpload e (Some f)) =
     [''/api/ingest'',
      if toLowerCase (name f) = ''pdf'' \<or> (\<exists>stem. toLowerCase (name f) = stem @ ''.pdf'')
      then ''/extract/unstructured'' else ''/extract/structured'']"
proof -
  have "requests (handleUpload e (Some f)) = [''/api/ingest'', extractEndpoint f]"
    using assms by (simp add: handleUpload_def requests_append requests_extract_step)
  then show ?thesis
    by (simp only: extractEndpoint_def isPdf_iff)
qed

text \<open>
  On every file whose name has a dot, the page does what claim C1 says: the endpoint is
  chosen by the final filename extension, compared case-insensitively.
\<close>

lemma extension_dispatch_with_dot:
  assumes "api_POST e ''/api/ingest'' f = Returned r" and "\<not> truthy (error r)"
    and "CHR ''.'' \<in> set (name f)"
  shows "requests (handleUpload e (Some f)) =
     [''/api/ingest'',
      if map_option toLowerCase (spec_final_extension (name f)) = Some ''pdf''
      then ''/extract/unstructured'' else ''/extract/structured'']"
proof -
  have "requests (handleUpload e (Some f)) = [''/api/ingest'', extractEndpoint f]"
    using assms by (simp add: handleUpload_def requests_append requests_extract_step)
  then show ?thesis
    using isPdf_with_dot [OF assms(3)] by (simp only: extractEndpoint_def)
qed

lemma extraction_dispatch_samples:
  "requests (handleUpload env_ok (Some sample_pdf)) = [''/api/ingest'', ''/extract/unstructured'']"
  "requests (handleUpload env_ok (Some sample_csv)) = [''/api/ingest'', ''/extract/structured'']"
proof -
  have a: "api_POST env_ok ''/api/ingest'' sample_pdf = Returned ingest_duplicate"
    and a': "api_POST env_ok ''/api/ingest'' sample_csv = Returned ingest_duplicate"
    by (simp_all add: env_ok_def)
  have b: "\<not> truthy (error ingest_duplicate)"
    by (simp add: ingest_duplicate_def)
  have d: "CHR ''.'' \<in> set (name sample_pdf)" "CHR ''.'' \<in> set (name sample_csv)"
    by (simp_all add: sample_pdf_def sample_csv_def)
  show "requests (handleUpload env_ok (Some sample_pdf)) =
      [''/api/ingest'', ''/extract/unstructured'']"
    using extension_dispatch_with_dot [OF a b d(1)] isPdf_with_dot [OF d(1)] isPdf_samples(1)
    by simp
  show "requests (handleUpload env_ok (Some sample_csv)) =
      [''/api/ingest'', ''/extract/structured'']"
    using extension_dispatch_with_dot [OF a' b d(2)] isPdf_with_dot [OF d(2)] isPdf_samples(2)
    by simp
qed

text \<open>
  Claim C1 says that a file is sent to \<^verbatim>\<open>/extract/unstructured\<close> when its final
  filename extension is \<^verbatim>\<open>pdf\<close> and to \<^verbatim>\<open>/extract/structured\<close> otherwise. The page at
  a file named \<^verbatim>\<open>pdf\<close>: the name has no dot and so no extension, yet
  \<^verbatim>\<open>split(".").pop()\<close> gives the whole name as \<^verbatim>\<open>fileExt\<close>, and after a successful
  ingest the upload is sent to \<^verbatim>\<open>/extract/unstructured\<close>.
\<close>

theorem dotless_pdf_sent_to_unstructured:
  "name dotless_pdf = ''pdf'' \<and>
   spec_final_extension (name dotless_pdf) = None \<and>
   api_POST env_ok ''/api/ingest'' dotless_pdf = Returned ingest_duplicate \<and>
   error ingest_duplicate = Undefined \<and>
   requests (handleUpload env_ok (Some dotless_pdf)) = [''/api/ingest'', ''/extract/unstructured'']"
  by (simp add: spec_final_extension_def env_ok_def ingest_duplicate_def handleUpload_def
      requests_append requests_extract_step extractEndpoint_def isPdf_samples)
     (simp add: dotless_pdf_def)

section \<open>The typed client helpers: theorems\<close>

text \<open>
  What the helpers do with a response of the API client: \<open>apiGet\<close> and \<open>getVendors\<close>
  throw exactly the \<^verbatim>\<open>error\<close> value of the response when it is truthy, never a value
  made up by the helper, and return the \<^verbatim>\<open>data\<close> field otherwise, in particular when
  the \<^verbatim>\<open>error\<close> field is absent.
\<close>

lemma helpers_throw_on_truthy_error:
  "(GET path (nullish_or arg (Obj [])) = Returned res \<longrightarrow>
      apiGet GET path arg = (if truthy (error res) then Inl (error res) else Inr (data res)) \<and>
      (error res = Undefined \<longrightarrow> apiGet GET path arg = Inr (data res))) \<and>
   (GET ''/vendors'' Undefined = Returned res' \<longrightarrow>
      getVendors GET = (if truthy (error res') then Inl (error res') else Inr (data res')) \<and>
      (error res' = Undefined \<longrightarrow> getVendors GET = Inr (data res')))"
  by (simp add: apiGet_def getVendors_def)

lemma helpers_samples:
  "apiGet (\<lambda>path params. Returned not_found) ''/vendors'' Undefined =
     Inl (Obj [(''detail'', Str ''Not Found'')])"
  "getVendors (\<lambda>path params. Returned not_found) = Inl (Obj [(''detail'', Str ''Not Found'')])"
  "apiGet (\<lambda>path params. Returned vendor_list) ''/vendors'' Undefined =
     Inr (Arr [Obj [(''name'', Str ''Acme'')]])"
  "getVendors (\<lambda>path params. Returned vendor_list) = Inr (Arr [Obj [(''name'', Str ''Acme'')]])"
  by (simp_all add: apiGet_def getVendors_def nullish_or_def not_found_def vendor_list_def)

text \<open>
  Claim C7 says that the helpers return the data exactly when the \<^verbatim>\<open>error\<close> field is
  absent and throw the received error otherwise; the comment on \<open>apiGet\<close> says that it
  throws on every response outside the 2xx range. The helpers at the response of a failed
  request with an empty body, whose \<^verbatim>\<open>error\<close> is the empty string and whose \<^verbatim>\<open>data\<close>
  is \<^verbatim>\<open>undefined\<close>: the error is present but falsy, so \<^verbatim>\<open>if (res.error)\<close> does not
  throw, and both helpers return \<^verbatim>\<open>undefined\<close> as if the request had succeeded.
\<close>

theorem empty_error_not_thrown:
  "error empty_error = Str [] \<and>
   data empty_error = Undefined \<and>
   apiGet (\<lambda>path params. Returned empty_error) ''/vendors'' Undefined = Inr Undefined \<and>
   getVendors (\<lambda>path params. Returned empty_error) = Inr Undefined"
  by (simp add: apiGet_def getVendors_def empty_error_def)

section \<open>The list pages: theorems\<close>

lemma items_Arr: "items (Arr xs) = xs"
  by (simp add: items_def asArray_def asObject_def)

lemma items_Obj:
  "items (Obj kvs) = (case map_of kvs ''items'' of Some (Arr xs) \<Rightarrow> xs | _ \<Rightarrow> [])"
  by (simp add: items_def asArray_def asObject_def split: option.splits jsval.splits)

lemma items_other:
  "(\<forall>xs. raw \<noteq> Arr xs) \<Longrightarrow> (\<forall>kvs. raw \<noteq> Obj kvs) \<Longrightarrow> items raw = []"
  by (cases raw) (simp_all add: items_def asArray_def asObject_def)

text \<open>
  Claim C8. The normalisation of a list response is total and does not depend on the
  shape: for every non-empty array \<open>xs\<close>, the bare array \<open>xs\<close> and the envelope
  \<^verbatim>\<open>{items: xs}\<close> (with or without further fields such as \<^verbatim>\<open>limit\<close> and \<^verbatim>\<open>offset\<close>)
  both normalise to \<open>xs\<close> and render the same rows. Every other response value
  (\<^verbatim>\<open>undefined\<close>, \<^verbatim>\<open>null\<close>, a value that is not an object, an object without an array
  under \<^verbatim>\<open>items\<close>, an empty array, an envelope of an empty array) normalises to the
  empty list.
\<close>

theorem items_normalization:
  "(xs \<noteq> [] \<longrightarrow>
      items (Arr xs) = xs \<and>
      items (Obj [(''items'', Arr xs)]) = xs \<and>
      (map_of kvs ''items'' = Some (Arr xs) \<longrightarrow> items (Obj kvs) = xs) \<and>
      rendered_rows (Obj [(''items'', Arr xs)]) = rendered_rows (Arr xs)) \<and>
   ((\<forall>ys. raw = Arr ys \<longrightarrow> ys = []) \<and>
    (\<forall>kvs ys. raw = Obj kvs \<and> map_of kvs ''items'' = Some (Arr ys) \<longrightarrow> ys = []) \<longrightarrow>
      items raw = [] \<and> rendered_rows raw = [])"
proof (intro conjI impI)
  show "items (Arr xs) = xs" by (rule items_Arr)
  show "items (Obj [(''items'', Arr xs)]) = xs" by (simp add: items_Obj)
  show "items (Obj kvs) = xs" if "map_of kvs ''items'' = Some (Arr xs)"
    using that by (simp add: items_Obj)
  show "rendered_rows (Obj [(''items'', Arr xs)]) = rendered_rows (Arr xs)"
    by (simp add: rendered_rows_def items_Obj items_Arr)
next
  assume h: "(\<forall>ys. raw = Arr ys \<longrightarrow> ys = []) \<and>
    (\<forall>kvs ys. raw = Obj kvs \<and> map_of kvs ''items'' = Some (Arr ys) \<longrightarrow> ys = [])"
  show e: "items raw = []"
  proof (cases raw)
    case (Arr ys)
    then show ?thesis using h by (simp add: items_Arr)
  next
    case (Obj kvs)
    then show ?thesis using h
      by (auto simp: items_Obj split: option.splits jsval.splits)
  qed (simp_all add: items_other)
  show "rendered_rows raw = []" by (simp add: rendered_rows_def e)
qed

theorem items_normalization_witness:
  "two_rows \<noteq> [] \<and>
   items (Arr two_rows) = two_rows \<and>
   items (Obj [(''items'', Arr two_rows)]) = two_rows \<and>
   items (Obj [(''items'', Arr two_rows), (''limit'', Num 50), (''offset'', Num 0)]) = two_rows \<and>
   rendered_rows (Obj [(''items'', Arr two_rows)]) = rendered_rows (Arr two_rows) \<and>
   rendered_rows (Arr two_rows) = [Obj [(''id'', Num 1)], Obj []] \<and>
   items Undefined = [] \<and> items Null = [] \<and> items (Str ''oops'') = [] \<and>
   items (Obj [(''items'', Str ''x'')]) = [] \<and> items (Obj [(''items'', Arr [])]) = [] \<and>
   items (Arr []) = []"
proof -
  note n = items_normalization [where xs = two_rows
      and kvs = "[(''items'', Arr two_rows), (''limit'', Num 50), (''offset'', Num 0)]"]
  have ne: "two_rows \<noteq> []" by (simp add: two_rows_def)
  have a: "items (Arr two_rows) = two_rows \<and>
      items (Obj [(''items'', Arr two_rows)]) = two_rows \<and>
      items (Obj [(''items'', Arr two_rows), (''limit'', Num 50), (''offset'', Num 0)]) = two_rows \<and>
      rendered_rows (Obj [(''items'', Arr two_rows)]) = rendered_rows (Arr two_rows)"
    using n [where raw = Null] ne by simp
  have b: "items Undefined = []" using n [where raw = Undefined] by simp
  have c: "items Null = []" using n [where raw = Null] by simp
  have d: "items (Str ''oops'') = []" using n [where raw = "Str ''oops''"] by simp
  have e: "items (Obj [(''items'', Str ''x'')]) = []"
    using n [where raw = "Obj [(''items'', Str ''x'')]"] by simp
  have f: "items (Obj [(''items'', Arr [])]) = []"
    using n [where raw = "Obj [(''items'', Arr [])]"] by simp
  have g: "items (Arr []) = []" using n [where raw = "Arr []"] by simp
  have r: "rendered_rows (Arr two_rows) = [Obj [(''id'', Num 1)], Obj []]"
    using a by (simp add: rendered_rows_def asObject_def two_rows_def)
  show ?thesis using ne a b c d e f g r by simp
qed

text \<open>
  Claim C5, as the code has it. The alert status domain is
  \<^verbatim>\<open>open\<close>, \<^verbatim>\<open>acknowledged\<close>, \<^verbatim>\<open>dismissed\<close>; the last two are terminal and no update
  leaves a terminal status. The alerts page classifies an alert as resolved (rendered
  dimmed) exactly when its status string, lower-cased, is \<^verbatim>\<open>resolved\<close>,
  \<^verbatim>\<open>dismissed\<close> or \<^verbatim>\<open>acknowledged\<close>, and never when it is \<^verbatim>\<open>open\<close>; so on the
  status domain the resolved alerts are exactly the terminal ones.
\<close>

theorem isResolved_classification:
  "(isResolved s \<longleftrightarrow>
      toLowerCase s = ''resolved'' \<or> toLowerCase s = ''dismissed'' \<or>
      toLowerCase s = ''acknowledged'') \<and>
   (toLowerCase s = ''open'' \<longrightarrow> \<not> isResolved s) \<and>
   (isResolved (status_name st) \<longleftrightarrow> terminal st) \<and>
   (isResolved (pickStatus (Obj [(''status'', Str (status_name st))])) \<longleftrightarrow> terminal st) \<and>
   (update_alert cur target = Some new \<longrightarrow> cur = Open \<and> new = target \<and> terminal new) \<and>
   (terminal cur \<longrightarrow> update_alert cur target = None)"
proof (intro conjI impI)
  show "isResolved s \<longleftrightarrow>
      toLowerCase s = ''resolved'' \<or> toLowerCase s = ''dismissed'' \<or>
      toLowerCase s = ''acknowledged''"
    by (simp add: isResolved_def)
  show "\<not> isResolved s" if "toLowerCase s = ''open''"
    using that by (simp add: isResolved_def)
  show r: "isResolved (status_name st) \<longleftrightarrow> terminal st"
    by (cases st) (simp_all add: isResolved_def toLowerCase_samples del: toLowerCase.simps)
  show "isResolved (pickStatus (Obj [(''status'', Str (status_name st))])) \<longleftrightarrow> terminal st"
    using r by (simp add: pickStatus_def)
  show "cur = Open" "new = target" "terminal new" if "update_alert cur target = Some new"
    using that by (cases cur; cases target; simp)+
  show "update_alert cur target = None" if "terminal cur"
    using that by (cases cur; cases target; simp)
qed

theorem isResolved_classification_witness:
  "toLowerCase ''OPEN'' = ''open'' \<and> \<not> isResolved ''OPEN'' \<and>
   isResolved ''Dismissed'' \<and> isResolved ''ACKNOWLEDGED'' \<and> isResolved ''Resolved'' \<and>
   update_alert Open Dismissed = Some Dismissed \<and> terminal Dismissed \<and>
   terminal Acknowledged \<and> update_alert Acknowledged Open = None \<and>
   update_alert Acknowledged Dismissed = None"
proof -
  have u: "update_alert Open Dismissed = Some Dismissed" by simp
  have t: "terminal Acknowledged" by simp
  show ?thesis
    using toLowerCase_samples u t
      isResolved_classification [where s = "''OPEN''" and cur = Open and target = Dismissed
        and new = Dismissed]
      isResolved_classification [where s = "''Dismissed''" and cur = Acknowledged
        and target = Open]
      isResolved_classification [where s = "''ACKNOWLEDGED''" and cur = Acknowledged
        and target = Dismissed]
      isResolved_classification [where s = "''Resolved''"]
    by (simp del: toLowerCase.simps)
qed

text \<open>
  The claim as it was stated, with \<^verbatim>\<open>acknowledged\<close> and \<^verbatim>\<open>dismissed\<close> as the only
  resolved statuses, fails on an alert whose status is \<^verbatim>\<open>resolved\<close>: the page renders it
  as resolved.
\<close>

theorem isResolved_counterexample:
  "pickStatus (Obj [(''status'', Str ''resolved'')]) = ''resolved'' \<and>
   isResolved (pickStatus (Obj [(''status'', Str ''resolved'')])) \<and>
   toLowerCase ''resolved'' \<noteq> ''acknowledged'' \<and>
   toLowerCase ''resolved'' \<noteq> ''dismissed''"
  by (simp add: pickStatus_def isResolved_def toLowerCase_samples del: toLowerCase.simps)

section \<open>The authentication middleware: theorems\<close>

lemma authorized_iff: "authorized tok \<longleftrightarrow> tok \<noteq> None"
  by (cases tok) (simp_all add: authorized_def token_value_def)

text \<open>
  Where the middleware runs, the wrapper does not let the path through as one that never
  requires authentication, and a secret is configured, the request goes on exactly when
  a session token is present, and is redirected to the sign-in page otherwise.
\<close>

lemma matched_request_gated:
  "matcher pathname \<Longrightarrow> \<not> never_requires_auth cfg pathname \<Longrightarrow> has_secret cfg \<Longrightarrow>
     middleware cfg pathname tok = (if tok \<noteq> None then Continue else RedirectToSignIn)"
  by (simp add: middleware_def handleMiddleware_def authorized_iff)

text \<open>
  A path under \<^verbatim>\<open>/_next\<close> other than \<^verbatim>\<open>_next/static\<close> and \<^verbatim>\<open>_next/image\<close> is covered
  by the matcher, and the wrapper lets it through without reading a token.
\<close>

lemma next_prefix_let_through:
  "matcher ''/_next/foo''"
  "never_requires_auth default_auth ''/_next/foo''"
  "middleware default_auth ''/_next/foo'' None = Continue"
  by (simp_all add: matcher_def excluded_def line_terminator_def middleware_def
      handleMiddleware_def never_requires_auth_def starts_with_def publicPaths_def
      default_auth_def)

lemma literal_prefixes_excluded:
  "p \<in> {''api/auth'', ''login'', ''_next/static'', ''_next/image'', ''favicon.ico''} \<Longrightarrow>
     \<not> matcher (CHR ''/'' # p @ rest)"
  by (auto simp: matcher_def excluded_def line_terminator_def)

text \<open>
  Claim C9 says that every route is gated on authentication except the five path
  prefixes \<^verbatim>\<open>api/auth\<close>, \<^verbatim>\<open>login\<close>, \<^verbatim>\<open>_next/static\<close>, \<^verbatim>\<open>_next/image\<close> and
  \<^verbatim>\<open>favicon.ico\<close>. The matcher at the path \<^verbatim>\<open>/faviconXico/export\<close>: the path begins
  with none of the five prefixes, yet the matcher does not cover it, because the dot of
  \<^verbatim>\<open>favicon.ico\<close> in the pattern stands for any character; the middleware does not run
  and a request for it without a token goes on. An ordinary route such as
  \<^verbatim>\<open>/invoices\<close> is covered, and with the default configuration a request for it without
  a token is redirected to the sign-in page.
\<close>

theorem favicon_wildcard_not_gated:
  "\<not> matcher ''/faviconXico/export'' \<and>
   middleware default_auth ''/faviconXico/export'' None = Continue \<and>
   \<not> list_ex (\<lambda>p. take (length p) ''faviconXico/export'' = p)
        [''api/auth'', ''login'', ''_next/static'', ''_next/image'', ''favicon.ico''] \<and>
   matcher ''/invoices'' \<and>
   \<not> never_requires_auth default_auth ''/invoices'' \<and>
   middleware default_auth ''/invoices'' None = RedirectToSignIn"
  by (simp add: matcher_def middleware_def handleMiddleware_def excluded_def
      line_terminator_def authorized_def token_value_def never_requires_auth_def
      starts_with_def publicPaths_def signInPage_def errorPage_def default_auth_def)

section \<open>The ingestion gate: theorems\<close>

lemma find_append_new: "find P xs = None \<Longrightarrow> P d \<Longrightarrow> find P (xs @ [d]) = Some d"
  by (induction xs) (auto split: if_splits)

lemma find_None_filter: "find P xs = None \<Longrightarrow> filter P xs = []"
  by (induction xs) (auto split: if_splits)

lemma find_Some_filter: "find P xs = Some d \<Longrightarrow> d \<in> set (filter P xs)"
  by (induction xs) (auto split: if_splits)

lemma distinct_keys_filter:
  "distinct (map (\<lambda>d. (org d, contentHash d)) ds) \<Longrightarrow>
     length (filter (same_content org_id h) ds) \<le> 1"
proof (induction ds)
  case Nil
  then show ?case by simp
next
  case (Cons d ds)
  show ?case
  proof (cases "same_content org_id h d")
    case True
    have "filter (same_content org_id h) ds = []"
    proof (rule ccontr)
      assume "filter (same_content org_id h) ds \<noteq> []"
      then obtain d' where "d' \<in> set ds" "same_content org_id h d'"
        by (metis filter_False)
      then have "(org d, contentHash d) \<in> set (map (\<lambda>d. (org d, contentHash d)) ds)"
        using True by (force simp: same_content_def)
      then show False using Cons.prems by simp
    qed
    then show ?thesis by simp
  next
    case False
    then show ?thesis using Cons by simp
  qed
qed

lemma unique_docs_rows_le: "unique_docs st \<Longrightarrow> length (rows_of org_id h st) \<le> 1"
  using distinct_keys_filter [of "raw_docs st" org_id h]
  by (simp add: unique_docs_def rows_of_def)

text \<open>
  Claim C3. Ingestion is idempotent. Take a store whose rows are unique in
  (org, contentHash) and a call of the gate that succeeds. Then a second call for the
  same org and the same bytes (whatever its file name and mime type, the clock and the
  state of the collaborators) returns the same document id and storage locator with
  \<^verbatim>\<open>duplicate = true\<close>, emits nothing and leaves the store as the first call left it: no
  storage write, no row. After the first call the store holds exactly one row for that
  org and content, its rows are still unique, and the first call added one row and one
  stored object, or none when the document was already there.
\<close>

theorem ingest_idempotent:
  assumes inv: "unique_docs st"
    and first: "ingest fp put1 ok1 t1 st org_id content fn1 m1 = (Inr r1, st1, ev1)"
  shows "ingest fp put2 ok2 t2 st1 org_id content fn2 m2 =
           (Inr (r1\<lparr>duplicate := True\<rparr>), st1, []) \<and>
         length (rows_of org_id (fp content) st1) = 1 \<and>
         unique_docs st1 \<and>
         length (raw_docs st1) = length (raw_docs st) + (if duplicate r1 then 0 else 1) \<and>
         length (blobs st1) = length (blobs st) + (if duplicate r1 then 0 else 1)"
proof (cases "find (same_content org_id (fp content)) (raw_docs st)")
  case (Some d)
  then have r: "r1 = \<lparr>documentId = doc_id d, storageLocator = storageRef d, duplicate = True\<rparr>"
    and s: "st1 = st"
    using first by (simp_all add: ingest_def)
  have "d \<in> set (rows_of org_id (fp content) st)"
    using find_Some_filter [OF Some] by (simp add: rows_of_def)
  then have "length (rows_of org_id (fp content) st) \<ge> 1"
    by (cases "rows_of org_id (fp content) st") auto
  then have one: "length (rows_of org_id (fp content) st) = 1"
    using unique_docs_rows_le [OF inv, of org_id "fp content"] by simp
  show ?thesis using Some r s inv one by (simp add: ingest_def)
next
  case None
  then obtain locator where p: "put1 = Some locator" and ok: "ok1"
    using first by (auto simp: ingest_def Let_def split: option.splits if_splits)
  define d where "d = \<lparr>doc_id = next_doc_id (raw_docs st), org = org_id,
      contentHash = fp content, storageRef = locator, mime = m1,
      byteSize = length content, uploadedAt = t1\<rparr>"
  have r: "r1 = \<lparr>documentId = doc_id d, storageLocator = locator, duplicate = False\<rparr>"
    and s: "st1 = st\<lparr>blobs := blobs st @ [(locator, content)], raw_docs := raw_docs st @ [d]\<rparr>"
    using first None p ok by (simp_all add: ingest_def Let_def d_def)
  have sc: "same_content org_id (fp content) d"
    by (simp add: same_content_def d_def)
  have f1: "find (same_content org_id (fp content)) (raw_docs st1) = Some d"
    using None sc s by (simp add: find_append_new)
  have none: "\<forall>x \<in> set (raw_docs st). \<not> same_content org_id (fp content) x"
    using None by (simp add: find_None_iff)
  have rows: "rows_of org_id (fp content) st1 = [d]"
    using None sc s by (simp add: rows_of_def find_None_filter)
  have u: "unique_docs st1"
    using inv none s by (force simp: unique_docs_def same_content_def d_def)
  show ?thesis using f1 r s rows u by (simp add: ingest_def d_def)
qed

theorem ingest_idempotent_witness:
  "unique_docs empty_store \<and>
   ingest sample_fp (Some ''org/o1/uploads/u1/a.csv'') True 100 empty_store
       ''o1'' ''a,b'' ''a.csv'' ''text/csv''
     = (Inr \<lparr>documentId = 1, storageLocator = ''org/o1/uploads/u1/a.csv'', duplicate = False\<rparr>,
        store_after_first, [DocumentReceived 1]) \<and>
   ingest sample_fp None False 200 store_after_first ''o1'' ''a,b'' ''copy.csv'' ''text/plain''
     = (Inr \<lparr>documentId = 1, storageLocator = ''org/o1/uploads/u1/a.csv'', duplicate = True\<rparr>,
        store_after_first, []) \<and>
   length (rows_of ''o1'' (sample_fp ''a,b'') store_after_first) = 1 \<and>
   length (raw_docs store_after_first) = 1 \<and> length (blobs store_after_first) = 1"
proof -
  have u: "unique_docs empty_store"
    by (simp add: unique_docs_def empty_store_def)
  have f: "ingest sample_fp (Some ''org/o1/uploads/u1/a.csv'') True 100 empty_store
       ''o1'' ''a,b'' ''a.csv'' ''text/csv''
     = (Inr \<lparr>documentId = 1, storageLocator = ''org/o1/uploads/u1/a.csv'', duplicate = False\<rparr>,
        store_after_first, [DocumentReceived 1])"
    by (simp add: ingest_def empty_store_def first_doc_def store_after_first_def sample_fp_def
        next_doc_id_def)
  show ?thesis
    using u f ingest_idempotent [OF u f, of None False 200 "''copy.csv''" "''text/plain''"]
    by (simp add: empty_store_def)
qed

section \<open>The validator's arithmetic rules: theorems\<close>











end
